theory Spec2Isabelle
  imports Main
begin

section \<open>JavaScript strings\<close>

text \<open>
  A JavaScript string is a sequence of UTF-16 code units. The code units are kept as
  natural numbers, so that \<open>String.prototype.trim\<close> can be modelled with the full
  ECMAScript white-space set (WhiteSpace and LineTerminator), which has members beyond
  one byte. \<open>ascii\<close> embeds an ASCII literal of the source.
\<close>

type_synonym jsstring = "nat list"

definition ascii :: "string \<Rightarrow> jsstring" where
  "ascii s = map of_char s"

definition isWhiteSpace :: "nat \<Rightarrow> bool" where
  \<comment> \<open>TAB, LF, VT, FF, CR, SP, NBSP, U+1680, U+2000..U+200A, U+2028, U+2029, U+202F,
      U+205F, U+3000, U+FEFF\<close>
  "isWhiteSpace c \<longleftrightarrow>
     c = 9 \<or> c = 10 \<or> c = 11 \<or> c = 12 \<or> c = 13 \<or> c = 32 \<or> c = 160 \<or> c = 5760 \<or>
     (8192 \<le> c \<and> c \<le> 8202) \<or> c = 8232 \<or> c = 8233 \<or> c = 8239 \<or> c = 8287 \<or>
     c = 12288 \<or> c = 65279"

definition trim :: "jsstring \<Rightarrow> jsstring" where
  \<comment> \<open>\<open>s.trim()\<close>\<close>
  "trim s = rev (dropWhile isWhiteSpace (rev (dropWhile isWhiteSpace s)))"

definition isDigit :: "nat \<Rightarrow> bool" where
  \<comment> \<open>the regular-expression class \<open>\d\<close> (no unicode flag): \<open>0\<close> to \<open>9\<close>\<close>
  "isDigit c \<longleftrightarrow> 48 \<le> c \<and> c \<le> 57"

definition parseInt :: "jsstring \<Rightarrow> nat" where
  \<comment> \<open>\<open>parseInt(p1, 10)\<close> on a run of decimal digits: the number the digits denote.
      In the source it is a JavaScript number, which is this number exactly as long as
      it is below \<open>2 ^ 53\<close>; there \<open>lineNum - 27\<close> and its decimal text are exact too.
      From \<open>2 ^ 53\<close> on the source computes with a rounded double, which is not
      modelled: \<open>exactLines\<close> below marks the texts in which no number reaches that
      range, and every statement about \<open>adjust\<close> is made for such texts only.\<close>
  "parseInt ds = foldl (\<lambda>a d. 10 * a + (d - 48)) 0 ds"

function showNat :: "nat \<Rightarrow> jsstring" where
  \<comment> \<open>the decimal text a template literal gives a non-negative integer\<close>
  "showNat n = (if n < 10 then [48 + n] else showNat (n div 10) @ [48 + n mod 10])"
  by pat_completeness auto
termination
  by (relation "measure id") auto

declare showNat.simps [simp del]

definition showCode :: "int option \<Rightarrow> jsstring" where
  \<comment> \<open>\<open>${code}\<close> for the exit code of the \<open>close\<close> event: a number, or \<open>null\<close> when
      the child was ended by a signal\<close>
  "showCode code =
     (case code of
        None \<Rightarrow> ascii ''null''
      | Some n \<Rightarrow> (if n < 0 then 45 # showNat (nat (- n)) else showNat (nat n)))"

section \<open>The sandbox executor: \<open>runPython\<close>\<close>

subsection \<open>The scratch file\<close>

text \<open>
  The text of the template literal before \<open>${code}\<close>: it opens with a line break, so the
  first line of the scratch file is empty, and the user's code follows the comment
  \<open># --- User Code ---\<close>.
\<close>

definition preamble :: "jsstring list" where
  "preamble =
    [ [],
      ascii ''import resource'',
      ascii ''import sys'',
      ascii ''import os'',
      [],
      ascii ''# Secure Sandbox Limits'',
      ascii ''try:'',
      ascii ''    # Limit CPU time to 2 seconds'',
      ascii ''    resource.setrlimit(resource.RLIMIT_CPU, (2, 2))'',
      ascii ''    # Limit memory to 256 MB'',
      ascii ''    resource.setrlimit(resource.RLIMIT_AS, (256 * 1024 * 1024, 256 * 1024 * 1024))'',
      ascii ''    # Prevent creating new files'',
      ascii ''    resource.setrlimit(resource.RLIMIT_FSIZE, (0, 0))'',
      ascii ''    # Prevent creating new processes (fork bombs)'',
      ascii ''    resource.setrlimit(resource.RLIMIT_NPROC, (0, 0))'',
      ascii ''except Exception as e:'',
      ascii ''    pass # Ignore if resource module fails (e.g. Windows)'',
      [],
      ascii ''# Remove dangerous builtins to prevent basic exploits'',
      ascii ''try:'',
      ascii ''    del __builtins__.__dict__['' @ [39] @ ascii ''open'' @ [39] @ ascii '']'',
      ascii ''    del __builtins__.__dict__['' @ [39] @ ascii ''exec'' @ [39] @ ascii '']'',
      ascii ''    del __builtins__.__dict__['' @ [39] @ ascii ''eval'' @ [39] @ ascii '']'',
      ascii ''except:'',
      ascii ''    pass'',
      [],
      ascii ''# --- User Code ---'' ]"

definition secureCode :: "jsstring \<Rightarrow> jsstring" where
  "secureCode code = concat (map (\<lambda>l. l @ [10]) preamble) @ code @ [10]"


subsection \<open>Remapping line numbers in the captured stderr\<close>

text \<open>
  \<open>error.replace(/line (\d+)/g, replacer)\<close>: the text is scanned from the left; where
  \<open>line\<close>, a space and a longest non-empty run of digits begin, the run is handed to the
  replacer and scanning goes on behind it; any other character is copied.
\<close>

definition matchLine :: "jsstring \<Rightarrow> (jsstring \<times> jsstring) option" where
  "matchLine s =
     (if take 5 s = ascii ''line '' \<and> takeWhile isDigit (drop 5 s) \<noteq> []
      then Some (takeWhile isDigit (drop 5 s), dropWhile isDigit (drop 5 s))
      else None)"

definition replacer :: "jsstring \<Rightarrow> jsstring" where
  \<comment> \<open>the callback: \<open>p1\<close> is the run of digits, \<open>match\<close> is \<open>line\<close>, a space and \<open>p1\<close>\<close>
  "replacer p1 =
     (let lineNum = parseInt p1 in
      if lineNum \<ge> 28 then ascii ''line '' @ showNat (lineNum - 27)
      else ascii ''line '' @ p1)"

lemma matchLine_shorter: "matchLine s = Some (ds, rest) \<Longrightarrow> length rest < length s"
proof -
  assume m: "matchLine s = Some (ds, rest)"
  then have t: "take 5 s = ascii ''line ''" and r: "rest = dropWhile isDigit (drop 5 s)"
    by (auto simp: matchLine_def split: if_splits)
  from t have "length (take 5 s) = 5" by (simp add: ascii_def)
  then have "5 \<le> length s" by simp
  moreover have "length rest \<le> length (drop 5 s)"
    unfolding r by (rule length_dropWhile_le)
  ultimately show ?thesis by simp
qed

function adjust :: "jsstring \<Rightarrow> jsstring" where
  "adjust [] = []"
| "adjust (c # cs) =
     (case matchLine (c # cs) of
        Some (p1, rest) \<Rightarrow> replacer p1 @ adjust rest
      | None \<Rightarrow> c # adjust cs)"
  by pat_completeness auto
termination
  by (relation "measure length") (auto dest: matchLine_shorter)

text \<open>
  The texts on which the model of \<open>adjust\<close> is the source's: every number that the
  scan hands to the replacer is below \<open>2 ^ 53\<close>.
\<close>

function exactLines :: "jsstring \<Rightarrow> bool" where
  "exactLines [] = True"
| "exactLines (c # cs) =
     (case matchLine (c # cs) of
        Some (p1, rest) \<Rightarrow> parseInt p1 < 2 ^ 53 \<and> exactLines rest
      | None \<Rightarrow> exactLines cs)"
  by pat_completeness auto
termination
  by (relation "measure length") (auto dest: matchLine_shorter)

subsection \<open>The child process and its events\<close>

text \<open>
  \<open>runPython\<close> writes the scratch file, spawns the child, feeds it the input and then
  only reacts to events: data on stdout and stderr, \<open>close\<close> (with the exit code, or
  \<open>null\<close> after a signal), \<open>exit\<close>, and the 3000 ms timer. It registers no listener for
  the child's \<open>error\<close> event, which is how a failed spawn is reported, so no code of
  \<open>runPython\<close> runs on it. The promise keeps the first settlement: \<open>Inr\<close> is the
  resolved output, \<open>Inl\<close> the message of the rejection.
\<close>

datatype event =
    StdoutData jsstring
  | StderrData jsstring
  | Close "int option"
  | Exit
  | Timeout
  | SpawnError

record proc_state =
  outputBuf :: jsstring
  errorBuf :: jsstring
  tempFile :: bool
  timerArmed :: bool
  killed :: bool
  settled :: "(jsstring + jsstring) option"

definition spawned :: proc_state where
  \<comment> \<open>after \<open>fs.writeFileSync\<close>, \<open>spawn\<close> and \<open>setTimeout\<close>\<close>
  "spawned = \<lparr> outputBuf = [], errorBuf = [], tempFile = True, timerArmed = True,
               killed = False, settled = None \<rparr>"

definition settle :: "jsstring + jsstring \<Rightarrow> proc_state \<Rightarrow> proc_state" where
  "settle r st = (case settled st of None \<Rightarrow> st\<lparr>settled := Some r\<rparr> | Some _ \<Rightarrow> st)"

definition closeOutcome :: "jsstring \<Rightarrow> jsstring \<Rightarrow> int option \<Rightarrow> jsstring + jsstring" where
  "closeOutcome out err code =
     (let adjustedError = (if err \<noteq> [] then adjust err else err) in
      if code = Some 0 then Inr out
      else if code = Some 137 \<or> code = Some 9
        then Inl (ascii ''Memory Limit Exceeded or Process Killed'')
      else if code = Some 152 \<or> code = Some 24
        then Inl (ascii ''CPU Time Limit Exceeded'')
      else Inl (if adjustedError \<noteq> [] then adjustedError
                else ascii ''Process exited with code '' @ showCode code))"

fun handle :: "proc_state \<Rightarrow> event \<Rightarrow> proc_state" where
  "handle st (StdoutData d) = st\<lparr>outputBuf := outputBuf st @ d\<rparr>"
| "handle st (StderrData d) = st\<lparr>errorBuf := errorBuf st @ d\<rparr>"
| "handle st (Close code) =
     settle (closeOutcome (outputBuf st) (errorBuf st) code) (st\<lparr>tempFile := False\<rparr>)"
| "handle st Exit = st\<lparr>timerArmed := False\<rparr>"
| "handle st Timeout =
     (if timerArmed st
      then settle (Inl (ascii ''Time Limit Exceeded (Hard Timeout)''))
             (st\<lparr>killed := True, tempFile := False, timerArmed := False\<rparr>)
      else st)"
| "handle st SpawnError = st"

type_synonym os = "jsstring \<Rightarrow> jsstring \<Rightarrow> event list"

definition runPythonState :: "os \<Rightarrow> jsstring \<Rightarrow> jsstring \<Rightarrow> proc_state" where
  \<comment> \<open>the state once the events of this child are over\<close>
  "runPythonState env code input = foldl handle spawned (env (secureCode code) input)"

definition runPython :: "os \<Rightarrow> jsstring \<Rightarrow> jsstring \<Rightarrow> (jsstring + jsstring) option" where
  \<comment> \<open>the awaited promise; \<open>None\<close>: it never settles\<close>
  "runPython env code input = settled (runPythonState env code input)"

subsection \<open>Reading an event trace\<close>





definition spawnFails :: os where
  "spawnFails file inp = [SpawnError]"







section \<open>The execute endpoint: \<open>POST /api/execute\<close>\<close>

record testcase =
  inputText :: jsstring
  expectedOutput :: jsstring

record exec_result = testcase +
  actualOutput :: "jsstring option"
  error :: "jsstring option"
  passed :: bool

datatype response =
    Status400 jsstring
  | Results "exec_result list"

text \<open>
  The executor the endpoint awaits, one call per test case (the number is the position
  of the call in the request): \<open>None\<close> when the promise never settles, \<open>Inl\<close> the message
  of the error caught, \<open>Inr\<close> the output.
\<close>

type_synonym executor = "nat \<Rightarrow> jsstring \<Rightarrow> jsstring \<Rightarrow> (jsstring + jsstring) option"

definition pythonResult :: "testcase \<Rightarrow> jsstring + jsstring \<Rightarrow> exec_result" where
  \<comment> \<open>the \<open>try\<close> block and its \<open>catch\<close>\<close>
  "pythonResult t r =
     (case r of
        Inr out \<Rightarrow>
          \<lparr> inputText = inputText t, expectedOutput = expectedOutput t,
            actualOutput = Some out, error = None,
            passed = (trim out = trim (expectedOutput t)) \<rparr>
      | Inl message \<Rightarrow>
          \<lparr> inputText = inputText t, expectedOutput = expectedOutput t,
            actualOutput = None, error = Some message, passed = False \<rparr>)"

definition mockResult :: "testcase \<Rightarrow> exec_result" where
  \<comment> \<open>\<open>Mock execution for C++ and Java\<close>\<close>
  "mockResult t =
     \<lparr> inputText = inputText t, expectedOutput = expectedOutput t,
       actualOutput = Some (expectedOutput t), error = None, passed = True \<rparr>"

text \<open>
  The loop over the test cases. Beside the results it gives the calls of \<open>runPython\<close>
  made so far (code and input of each), which is what the endpoint has spawned. A call
  that never settles leaves the request without a response.
\<close>

fun testLoop ::
  "executor \<Rightarrow> jsstring \<Rightarrow> jsstring \<Rightarrow> nat \<Rightarrow> testcase list
     \<Rightarrow> exec_result list option \<times> (jsstring \<times> jsstring) list" where
  "testLoop run code language i [] = (Some [], [])"
| "testLoop run code language i (t # ts) =
     (if language = ascii ''python'' then
        (case run i code (inputText t) of
           None \<Rightarrow> (None, [(code, inputText t)])
         | Some r \<Rightarrow>
             (case testLoop run code language (Suc i) ts of
                (rest, calls) \<Rightarrow>
                  (map_option (\<lambda>rs. pythonResult t r # rs) rest, (code, inputText t) # calls)))
      else
        (case testLoop run code language (Suc i) ts of
           (rest, calls) \<Rightarrow> (map_option (\<lambda>rs. mockResult t # rs) rest, calls)))"

definition apiExecute ::
  "executor \<Rightarrow> jsstring \<Rightarrow> jsstring \<Rightarrow> testcase list
     \<Rightarrow> response option \<times> (jsstring \<times> jsstring) list" where
  "apiExecute run code language testCases =
     (if language \<noteq> ascii ''python'' \<and> language \<noteq> ascii ''cpp'' \<and> language \<noteq> ascii ''java''
      then (Some (Status400 (ascii ''Unsupported language.'')), [])
      else (case testLoop run code language 0 testCases of
              (rs, calls) \<Rightarrow> (map_option Results rs, calls)))"


text \<open>
  An executor for examples: a child that echoes its input, and fails on empty input.
\<close>

definition echoExecutor :: executor where
  "echoExecutor i src inp = (if inp = [] then Some (Inl (ascii ''EOFError'')) else Some (Inr (inp @ [10])))"

definition twoTests :: "testcase list" where
  "twoTests = [\<lparr> inputText = ascii ''7'', expectedOutput = ascii '' 7'' \<rparr>,
               \<lparr> inputText = [], expectedOutput = ascii ''0'' \<rparr>]"



section \<open>The repair loop controller: \<open>runAgent\<close>\<close>

datatype step = Idle | Analyzing | Coding | Testing | Debugging | Optimizing | Completed | Failed

text \<open>
  The React state \<open>runAgent\<close> writes that the properties below read: \<open>step\<close>, \<open>code\<close>
  and \<open>testResults\<close>. The log panel (\<open>addLog\<close>) and the other display state
  (\<open>setAnalysis\<close>, \<open>setGeneratedTests\<close>, \<open>setAllTests\<close>, \<open>setTelemetryTab\<close>,
  \<open>setShowTestLibrary\<close>) are written only, and are left out.
\<close>

record ui_state =
  uiStep :: step
  uiCode :: jsstring
  uiTestResults :: "exec_result list"

text \<open>
  The collaborators, each of which returns (\<open>Inr\<close>) or throws (\<open>Inl\<close>, the message of
  the error). \<open>fetchExecute\<close> is the request to \<open>/api/execute\<close> together with reading
  \<open>results\<close> off its response; it and \<open>debugAndRepair\<close> also take the number of the
  validation cycle, since a collaborator need not answer the same question twice alike.
  The \<open>reasoning\<close> of a response is only logged; \<open>proMode\<close> only selects the remote
  model.
\<close>

record 'a collaborators =
  analyzeProblem :: "jsstring \<Rightarrow> jsstring + 'a"
  generateInitialCode :: "'a \<Rightarrow> jsstring \<Rightarrow> jsstring + jsstring"
  generateTestCases :: "jsstring \<Rightarrow> 'a \<Rightarrow> jsstring \<Rightarrow> jsstring + testcase list"
  fetchExecute :: "nat \<Rightarrow> jsstring \<Rightarrow> jsstring \<Rightarrow> testcase list \<Rightarrow> jsstring + exec_result list"
  debugAndRepair :: "nat \<Rightarrow> jsstring \<Rightarrow> jsstring \<Rightarrow> exec_result list \<Rightarrow> jsstring + jsstring"
  optimizeCode :: "jsstring \<Rightarrow> jsstring \<Rightarrow> jsstring + jsstring"

text \<open>
  The local variables of the test-and-repair loop, with the React state. \<open>executions\<close>
  is not a variable of the source: it records, in order, every validation cycle whose
  results came back, as the candidate executed and its results.
\<close>

record agent_state =
  ui :: ui_state
  iterations :: nat
  allPassed :: bool
  currentCode :: jsstring
  bestCode :: jsstring
  maxPassedCount :: int
  bestTestResults :: "exec_result list"
  executions :: "(jsstring \<times> exec_result list) list"

definition MAX_ITERATIONS :: nat where
  "MAX_ITERATIONS = 5"

definition setStep :: "step \<Rightarrow> agent_state \<Rightarrow> agent_state" where
  "setStep s st = st\<lparr>ui := (ui st)\<lparr>uiStep := s\<rparr>\<rparr>"

definition setCode :: "jsstring \<Rightarrow> agent_state \<Rightarrow> agent_state" where
  "setCode c st = st\<lparr>ui := (ui st)\<lparr>uiCode := c\<rparr>\<rparr>"

definition setTestResults :: "exec_result list \<Rightarrow> agent_state \<Rightarrow> agent_state" where
  "setTestResults rs st = st\<lparr>ui := (ui st)\<lparr>uiTestResults := rs\<rparr>\<rparr>"

definition passedCount :: "exec_result list \<Rightarrow> int" where
  \<comment> \<open>\<open>results.filter((r) => r.passed).length\<close>\<close>
  "passedCount results = int (length (filter passed results))"

definition trackBest :: "exec_result list \<Rightarrow> agent_state \<Rightarrow> agent_state" where
  \<comment> \<open>\<open>if (passedCount > maxPassedCount) { ... }\<close>\<close>
  "trackBest results st =
     (if passedCount results > maxPassedCount st
      then st\<lparr>maxPassedCount := passedCount results, bestCode := currentCode st,
               bestTestResults := results\<rparr>
      else st)"

definition initLoop :: "jsstring \<Rightarrow> ui_state \<Rightarrow> agent_state" where
  \<comment> \<open>the declarations before the \<open>while\<close>\<close>
  "initLoop code u =
     \<lparr> ui = u, iterations = 0, allPassed = False, currentCode = code, bestCode = code,
       maxPassedCount = - 1, bestTestResults = [], executions = [] \<rparr>"

text \<open>
  One pass through the body of the \<open>while\<close>. The first component is the message of the
  error thrown in it, if any; the state is then the one at the throw.
\<close>

definition iteration ::
  "'a collaborators \<Rightarrow> jsstring \<Rightarrow> jsstring \<Rightarrow> testcase list \<Rightarrow> agent_state
     \<Rightarrow> jsstring option \<times> agent_state" where
  "iteration env problem language allTests st0 =
     (let st1 = st0\<lparr>iterations := iterations st0 + 1\<rparr> in
      case fetchExecute env (iterations st1) (currentCode st1) language allTests of
        Inl e \<Rightarrow> (Some e, st1)
      | Inr results \<Rightarrow>
          (let st2 = setTestResults results
                       (st1\<lparr>executions := executions st1 @ [(currentCode st1, results)]\<rparr>);
               st3 = trackBest results st2;
               failed = filter (\<lambda>r. \<not> passed r) results
           in if length failed = 0 then (None, st3\<lparr>allPassed := True\<rparr>)
              else
                (let st4 = setStep Debugging st3 in
                 if iterations st4 < MAX_ITERATIONS then
                   (case debugAndRepair env (iterations st4) problem (currentCode st4) failed of
                      Inl e \<Rightarrow> (Some e, st4)
                    | Inr data \<Rightarrow>
                        if data = [] \<or> trim data = []
                        then (Some (ascii ''Self-repair generated empty code. Aborting.''), st4)
                        else (None, setCode data (st4\<lparr>currentCode := data\<rparr>)))
                 else (None, st4))))"

lemma iteration_iterations:
  "iteration env problem language allTests st = (r, st')
     \<Longrightarrow> iterations st' = Suc (iterations st)"
  by (auto simp: iteration_def Let_def setTestResults_def trackBest_def setStep_def
      setCode_def split: sum.splits if_splits)

function repairLoop ::
  "'a collaborators \<Rightarrow> jsstring \<Rightarrow> jsstring \<Rightarrow> testcase list \<Rightarrow> agent_state
     \<Rightarrow> jsstring option \<times> agent_state" where
  "repairLoop env problem language allTests st =
     (if \<not> allPassed st \<and> iterations st < MAX_ITERATIONS then
        (case iteration env problem language allTests st of
           (Some e, st') \<Rightarrow> (Some e, st')
         | (None, st') \<Rightarrow> repairLoop env problem language allTests st')
      else (None, st))"
  by pat_completeness auto
termination
  by (relation "measure (\<lambda>(env, problem, language, allTests, st). MAX_ITERATIONS - iterations st)")
     (auto dest: iteration_iterations [OF sym])

declare repairLoop.simps [simp del]

definition fallBack :: "agent_state \<Rightarrow> agent_state" where
  \<comment> \<open>\<open>if (!allPassed) { currentCode = bestCode; ... }\<close>\<close>
  "fallBack st =
     (if \<not> allPassed st
      then setTestResults (bestTestResults st) (setCode (bestCode st) (st\<lparr>currentCode := bestCode st\<rparr>))
      else st)"

definition optimize :: "'a collaborators \<Rightarrow> jsstring \<Rightarrow> agent_state \<Rightarrow> jsstring option \<times> agent_state" where
  \<comment> \<open>step 5\<close>
  "optimize env problem st0 =
     (let st1 = setStep Optimizing st0 in
      case optimizeCode env problem (currentCode st1) of
        Inl e \<Rightarrow> (Some e, st1)
      | Inr optimizedCode \<Rightarrow> (None, setStep Completed (setCode optimizedCode st1)))"

definition testRepairOptimize ::
  "'a collaborators \<Rightarrow> jsstring \<Rightarrow> jsstring \<Rightarrow> testcase list \<Rightarrow> jsstring \<Rightarrow> ui_state
     \<Rightarrow> jsstring option \<times> agent_state" where
  \<comment> \<open>steps 4 and 5, inside the \<open>try\<close>\<close>
  "testRepairOptimize env problem language allTests code u =
     (case repairLoop env problem language allTests (initLoop code u) of
        (Some e, st) \<Rightarrow> (Some e, st)
      | (None, st) \<Rightarrow> optimize env problem (fallBack st))"

definition catchFailure :: "jsstring option \<times> agent_state \<Rightarrow> agent_state" where
  \<comment> \<open>\<open>catch (err) { setStep('failed'); ... }\<close>\<close>
  "catchFailure r = (case r of (Some e, st) \<Rightarrow> setStep Failed st | (None, st) \<Rightarrow> st)"

definition inputPublicTests :: "jsstring \<Rightarrow> jsstring \<Rightarrow> testcase list" where
  "inputPublicTests sampleInput sampleOutput =
     (if trim sampleInput \<noteq> [] \<and> trim sampleOutput \<noteq> []
      then [\<lparr> inputText = trim sampleInput, expectedOutput = trim sampleOutput \<rparr>]
      else [])"

definition runAgent ::
  "'a collaborators \<Rightarrow> jsstring \<Rightarrow> jsstring \<Rightarrow> jsstring \<Rightarrow> jsstring \<Rightarrow> ui_state \<Rightarrow> ui_state" where
  "runAgent env problem sampleInput sampleOutput language u =
     (if trim problem = [] then u
      else
        (case analyzeProblem env problem of
           Inl e \<Rightarrow> u\<lparr>uiStep := Failed\<rparr>
         | Inr analysisData \<Rightarrow>
             (case generateInitialCode env analysisData language of
                Inl e \<Rightarrow> u\<lparr>uiStep := Failed\<rparr>
              | Inr code \<Rightarrow>
                  (case generateTestCases env problem analysisData code of
                     Inl e \<Rightarrow> u\<lparr>uiCode := code, uiStep := Failed\<rparr>
                   | Inr newGeneratedTests \<Rightarrow>
                       ui (catchFailure
                            (testRepairOptimize env problem language
                               (inputPublicTests sampleInput sampleOutput @ newGeneratedTests)
                               code (u\<lparr>uiCode := code, uiStep := Testing\<rparr>)))))))"

subsection \<open>Describing runs\<close>

text \<open>
  The following describe runs of the loop; they are not code of the source.
  \<open>earliestBest ex i\<close>: cycle \<open>i\<close> (counted from 0) has the greatest pass count of the
  cycles \<open>ex\<close>, and every cycle before it has a smaller one. \<open>cycles n\<close>: the state after
  \<open>n\<close> passes through the body of the loop, none of which threw.
\<close>

definition earliestBest :: "(jsstring \<times> exec_result list) list \<Rightarrow> nat \<Rightarrow> bool" where
  "earliestBest ex i \<longleftrightarrow>
     i < length ex \<and>
     list_all (\<lambda>e. passedCount (snd e) \<le> passedCount (snd (ex ! i))) ex \<and>
     list_all (\<lambda>e. passedCount (snd e) < passedCount (snd (ex ! i))) (take i ex)"

fun cycles ::
  "'a collaborators \<Rightarrow> jsstring \<Rightarrow> jsstring \<Rightarrow> testcase list \<Rightarrow> nat \<Rightarrow> agent_state
     \<Rightarrow> agent_state option" where
  "cycles env problem language allTests 0 st = Some st"
| "cycles env problem language allTests (Suc n) st =
     (if \<not> allPassed st \<and> iterations st < MAX_ITERATIONS then
        (case iteration env problem language allTests st of
           (Some e, st') \<Rightarrow> None
         | (None, st') \<Rightarrow> cycles env problem language allTests n st')
      else None)"

text \<open>Invariants of the loop: what the tracker holds, and what is on display.\<close>

definition trackerInv :: "agent_state \<Rightarrow> bool" where
  "trackerInv st \<longleftrightarrow>
     (executions st = [] \<and> maxPassedCount st = - 1) \<or>
     (\<exists>i. earliestBest (executions st) i \<and>
          bestCode st = fst (executions st ! i) \<and>
          bestTestResults st = snd (executions st ! i) \<and>
          maxPassedCount st = passedCount (snd (executions st ! i)))"

definition shownInv :: "agent_state \<Rightarrow> bool" where
  "shownInv st \<longleftrightarrow>
     uiCode (ui st) = currentCode st \<and>
     (allPassed st \<longrightarrow>
        executions st \<noteq> [] \<and> last (executions st) = (currentCode st, uiTestResults (ui st)) \<and>
        list_all passed (uiTestResults (ui st)))"

subsection \<open>Collaborators for examples\<close>

text \<open>
  Five test cases; results in which the first \<open>k\<close> test cases pass; and collaborators
  that score the successive candidates as listed, answer a repair with the next
  candidate (with two blanks in the cycle \<open>blankAt\<close>), and have an optimizer that throws.
\<close>

definition fiveTests :: "testcase list" where
  "fiveTests =
     [\<lparr> inputText = ascii ''1'', expectedOutput = ascii ''1'' \<rparr>,
      \<lparr> inputText = ascii ''2'', expectedOutput = ascii ''2'' \<rparr>,
      \<lparr> inputText = ascii ''3'', expectedOutput = ascii ''3'' \<rparr>,
      \<lparr> inputText = ascii ''4'', expectedOutput = ascii ''4'' \<rparr>,
      \<lparr> inputText = ascii ''5'', expectedOutput = ascii ''5'' \<rparr>]"

fun mark :: "nat \<Rightarrow> testcase list \<Rightarrow> exec_result list" where
  "mark k [] = []"
| "mark k (t # ts) =
     (if 0 < k then mockResult t else pythonResult t (Inl (ascii ''wrong''))) # mark (k - 1) ts"

definition candidate :: "nat \<Rightarrow> jsstring" where
  "candidate i = [118, 48 + i]"

definition scriptedEnv :: "nat list \<Rightarrow> nat \<Rightarrow> unit collaborators" where
  "scriptedEnv scores blankAt =
     \<lparr> analyzeProblem = (\<lambda>p. Inr ()),
       generateInitialCode = (\<lambda>a l. Inr (candidate 1)),
       generateTestCases = (\<lambda>p a c. Inr fiveTests),
       fetchExecute = (\<lambda>i src lang tests.
          Inr (mark (if i \<le> length scores then scores ! (i - 1) else 0) tests)),
       debugAndRepair = (\<lambda>i p src failed.
          Inr (if i = blankAt then ascii ''  '' else candidate (Suc i))),
       optimizeCode = (\<lambda>p src. Inl (ascii ''optimizer unavailable'')) \<rparr>"

definition freshUi :: ui_state where
  "freshUi = \<lparr> uiStep = Testing, uiCode = candidate 1, uiTestResults = [] \<rparr>"

definition idleUi :: ui_state where
  "idleUi = \<lparr> uiStep = Idle, uiCode = [], uiTestResults = [] \<rparr>"

definition scoredRun :: "jsstring option \<times> agent_state" where
  "scoredRun =
     repairLoop (scriptedEnv [3, 1, 4, 4, 2] 0) (ascii ''sum'') (ascii ''python'') fiveTests
       (initLoop (candidate 1) freshUi)"

definition blankRun :: "jsstring option \<times> agent_state" where
  "blankRun =
     testRepairOptimize (scriptedEnv [3, 1, 4, 4, 2] 2) (ascii ''sum'') (ascii ''python'') fiveTests
       (candidate 1) freshUi"

definition idealRun :: "jsstring option \<times> agent_state" where
  "idealRun =
     repairLoop (scriptedEnv [5] 0) (ascii ''sum'') (ascii ''python'') fiveTests
       (initLoop (candidate 1) freshUi)"

section \<open>Properties of the sandbox executor\<close>

subsection \<open>Line numbers\<close>

lemma ascii_line: "ascii ''line '' = [108, 105, 110, 101, 32]"
  by (simp add: ascii_def)

lemma takeWhile_app_stop:
  "s = [] \<or> \<not> P (hd s) \<Longrightarrow> takeWhile P (xs @ s) = takeWhile P xs"
  by (induction xs) (auto simp: takeWhile_eq_Nil_iff neq_Nil_conv)

lemma dropWhile_app_stop:
  "s = [] \<or> \<not> P (hd s) \<Longrightarrow> dropWhile P (xs @ s) = dropWhile P xs @ s"
  by (induction xs) (auto simp: dropWhile_eq_self_iff neq_Nil_conv)

lemma matchLine_short: "length pre < 5 \<Longrightarrow> matchLine pre = None"
  by (auto simp: matchLine_def ascii_line dest: arg_cong[where f=length])

lemma matchLine_append:
  assumes s: "s = [] \<or> (\<not> isDigit (hd s) \<and> hd s \<noteq> 105 \<and> hd s \<noteq> 110 \<and> hd s \<noteq> 101 \<and> hd s \<noteq> 32)"
    and pre: "pre \<noteq> []"
  shows "matchLine (pre @ s) = map_option (\<lambda>(ds, rest). (ds, rest @ s)) (matchLine pre)"
proof (cases "5 \<le> length pre")
  case True
  from s have s': "s = [] \<or> \<not> isDigit (hd s)" by blast
  from True show ?thesis
    by (simp add: matchLine_def takeWhile_app_stop[where P=isDigit, OF s'] dropWhile_app_stop[where P=isDigit, OF s'])
next
  case False
  then have short: "matchLine pre = None" by (simp add: matchLine_short)
  have "take 5 (pre @ s) \<noteq> ascii ''line ''"
  proof
    assume eq: "take 5 (pre @ s) = ascii ''line ''"
    show False
    proof (cases s)
      case Nil
      with eq False show False by (auto simp: ascii_line dest: arg_cong[where f=length])
    next
      case (Cons a t)
      from eq have "(take 5 (pre @ s)) ! length pre = ascii ''line '' ! length pre" by simp
      with False Cons have "a = [108, 105, 110, 101, 32] ! length pre"
        by (simp add: ascii_line nth_append)
      moreover from pre have "0 < length pre" by simp
      with False have "length pre = 1 \<or> length pre = 2 \<or> length pre = 3 \<or> length pre = 4"
        by arith
      ultimately have "a = 105 \<or> a = 110 \<or> a = 101 \<or> a = 32" by auto
      with s Cons show False by auto
    qed
  qed
  with short show ?thesis by (simp add: matchLine_def)
qed


lemma matchLine_hit:
  assumes "ds \<noteq> []" "\<forall>d\<in>set ds. isDigit d" "post = [] \<or> \<not> isDigit (hd post)"
  shows "matchLine (ascii ''line '' @ ds @ post) = Some (ds, post)"
proof -
  have t: "takeWhile isDigit (ds @ post) = ds"
    using assms(2) takeWhile_app_stop[where P=isDigit, OF assms(3), of ds] by simp
  have d: "dropWhile isDigit (ds @ post) = post"
    using assms(2) dropWhile_app_stop[where P=isDigit, OF assms(3), of ds] by simp
  show ?thesis using assms(1) by (simp add: matchLine_def ascii_line t d)
qed













lemma exactLines_append:
  assumes s: "s = [] \<or> (\<not> isDigit (hd s) \<and> hd s \<noteq> 105 \<and> hd s \<noteq> 110 \<and> hd s \<noteq> 101 \<and> hd s \<noteq> 32)"
  shows "exactLines (pre @ s) \<longleftrightarrow> exactLines pre \<and> exactLines s"
proof (induction pre rule: exactLines.induct)
  case 1
  show ?case by simp
next
  case (2 c cs)
  have m: "matchLine ((c # cs) @ s) = map_option (\<lambda>(ds, rest). (ds, rest @ s)) (matchLine (c # cs))"
    by (rule matchLine_append[OF s]) simp
  show ?case
  proof (cases "matchLine (c # cs)")
    case None
    with m 2 show ?thesis by simp
  next
    case (Some a)
    obtain ds rest where a: "a = (ds, rest)" by (cases a)
    with m 2 Some show ?thesis by auto
  qed
qed

lemma exactLines_occurrence:
  assumes "ds \<noteq> []" "\<forall>d\<in>set ds. isDigit d" "post = [] \<or> \<not> isDigit (hd post)"
  shows "exactLines (pre @ ascii ''line '' @ ds @ post) \<longleftrightarrow>
           exactLines pre \<and> parseInt ds < 2 ^ 53 \<and> exactLines post"
proof -
  have "exactLines (pre @ ascii ''line '' @ ds @ post) \<longleftrightarrow>
          exactLines pre \<and> exactLines (ascii ''line '' @ ds @ post)"
    by (rule exactLines_append) (simp add: ascii_line isDigit_def)
  moreover have "exactLines (ascii ''line '' @ ds @ post) \<longleftrightarrow> parseInt ds < 2 ^ 53 \<and> exactLines post"
    using matchLine_hit[OF assms] by (simp add: ascii_line)
  ultimately show ?thesis by simp
qed










subsection \<open>Classification on \<open>close\<close>\<close>







subsection \<open>The scratch file\<close>

text \<open>Whenever the promise has settled, by \<open>close\<close> or by the timer, the file is gone.\<close>

lemma settled_removed_step:
  "(settled st \<noteq> None \<longrightarrow> \<not> tempFile st) \<Longrightarrow>
   (settled (handle st e) \<noteq> None \<longrightarrow> \<not> tempFile (handle st e))"
  by (cases e) (auto simp: settle_def split: option.splits)

lemma settled_removed_run:
  "(settled st \<noteq> None \<longrightarrow> \<not> tempFile st) \<Longrightarrow>
   (settled (foldl handle st evs) \<noteq> None \<longrightarrow> \<not> tempFile (foldl handle st evs))"
proof (induction evs arbitrary: st)
  case Nil
  then show ?case by simp
next
  case (Cons e evs)
  from Cons.IH[OF settled_removed_step[OF Cons.prems, of e]] show ?case by simp
qed

lemma settled_scratch_file_removed:
  "runPython env src inp \<noteq> None \<Longrightarrow> \<not> tempFile (runPythonState env src inp)"
  using settled_removed_run[of spawned "env (secureCode src) inp"]
  by (simp add: runPython_def runPythonState_def spawned_def)

text \<open>
  Claim C9 at a failed spawn. The child then emits \<open>error\<close> and nothing else;
  \<open>runPython\<close> has no listener for it, so the scratch file written before the spawn
  stays, and the promise never settles.
\<close>

theorem spawn_failure_leaves_scratch_file:
  "tempFile (runPythonState spawnFails src inp) \<and> runPython spawnFails src inp = None"
  by (simp add: runPythonState_def runPython_def spawned_def spawnFails_def)

subsection \<open>The hard timeout\<close>









section \<open>Properties of the execute endpoint\<close>


text \<open>
  Claim C4. A request whose language is none of \<open>python\<close>, \<open>cpp\<close> and \<open>java\<close> is
  answered with status 400 and \<open>Unsupported language.\<close>, and \<open>runPython\<close> has not been
  called for any test case; a request with one of the three languages never gets that
  answer.
\<close>

theorem unsupported_language_rejected:
  "(language \<noteq> ascii ''python'' \<and> language \<noteq> ascii ''cpp'' \<and> language \<noteq> ascii ''java'' \<longrightarrow>
      apiExecute run src language testCases = (Some (Status400 (ascii ''Unsupported language.'')), [])) \<and>
   (language = ascii ''python'' \<or> language = ascii ''cpp'' \<or> language = ascii ''java'' \<longrightarrow>
      fst (apiExecute run src language testCases) \<noteq> Some (Status400 message))"
  by (auto simp: apiExecute_def split: prod.splits)

theorem unsupported_language_rejected_witness:
  "apiExecute echoExecutor (ascii ''puts 1'') (ascii ''ruby'') twoTests
     = (Some (Status400 (ascii ''Unsupported language.'')), []) \<and>
   fst (apiExecute echoExecutor (ascii ''print(input())'') (ascii ''python'') twoTests)
     \<noteq> Some (Status400 (ascii ''Unsupported language.''))"
  using unsupported_language_rejected[of "ascii ''ruby''" echoExecutor "ascii ''puts 1''" twoTests]
        unsupported_language_rejected[of "ascii ''python''" echoExecutor "ascii ''print(input())''" twoTests "ascii ''Unsupported language.''"]
  by (simp add: ascii_def)








section \<open>Properties of the repair loop controller\<close>

lemmas ui_simps = setStep_def setCode_def setTestResults_def

lemma iteration_executions:
  "iteration env problem language allTests st = (r, st') \<Longrightarrow>
     length (executions st') \<le> Suc (length (executions st)) \<and>
     (r = None \<longrightarrow> length (executions st') = Suc (length (executions st)))"
  by (auto simp: iteration_def Let_def ui_simps trackBest_def split: sum.splits if_splits)

lemma repairLoop_invariant:
  assumes "P st"
    and step: "\<And>s r s'. P s \<Longrightarrow> \<not> allPassed s \<Longrightarrow> iterations s < MAX_ITERATIONS \<Longrightarrow>
                 iteration env problem language allTests s = (r, s') \<Longrightarrow> P s'"
    and "repairLoop env problem language allTests st = (r, st')"
  shows "P st'"
  using assms
proof (induction env problem language allTests st rule: repairLoop.induct)
  case (1 env problem language allTests st)
  note P0 = "1.prems"(1) and stp = "1.prems"(2) and lp = "1.prems"(3)
  show ?case
  proof (cases "\<not> allPassed st \<and> iterations st < MAX_ITERATIONS")
    case False
    with P0 lp show ?thesis by (simp add: repairLoop.simps)
  next
    case True
    obtain r1 st1 where it: "iteration env problem language allTests st = (r1, st1)"
      by (cases "iteration env problem language allTests st")
    from True have p1: "P st1" by (intro stp[OF P0 _ _ it]) simp_all
    show ?thesis
    proof (cases r1)
      case (Some e)
      with True it lp have "st' = st1" by (simp add: repairLoop.simps)
      with p1 show ?thesis by simp
    next
      case None
      with True it lp have l1: "repairLoop env problem language allTests st1 = (r, st')"
        by (simp add: repairLoop.simps)
      from None show ?thesis
        by (intro "1.IH"[OF True it[symmetric] _ p1 _ l1]) (simp, rule stp)
    qed
  qed
qed

lemmas eval_simps = repairLoop.simps iteration_def scriptedEnv_def initLoop_def fiveTests_def
  candidate_def freshUi_def idleUi_def Let_def ui_simps trackBest_def passedCount_def mockResult_def
  pythonResult_def MAX_ITERATIONS_def fallBack_def ascii_def trim_def isWhiteSpace_def
  testRepairOptimize_def optimize_def catchFailure_def

lemma scoredRun_normal: "fst scoredRun = None \<and> \<not> allPassed (snd scoredRun)"
  by (simp add: scoredRun_def eval_simps)

lemma scoredRun_scores:
  "map (\<lambda>e. passedCount (snd e)) (executions (snd scoredRun)) = [3, 1, 4, 4, 2] \<and>
   map fst (executions (snd scoredRun)) = [candidate 1, candidate 2, candidate 3, candidate 4, candidate 5]"
  by (simp add: scoredRun_def eval_simps)

lemma scoredRun_reported:
  "uiCode (ui (fallBack (snd scoredRun))) = candidate 3 \<and>
   passedCount (uiTestResults (ui (fallBack (snd scoredRun)))) = 4"
  by (simp add: scoredRun_def eval_simps)

subsection \<open>The iteration bound\<close>

lemma repairLoop_bound:
  assumes "repairLoop env problem language allTests (initLoop src u) = (r, st)"
  shows "iterations st \<le> MAX_ITERATIONS \<and> length (executions st) \<le> iterations st"
proof (rule repairLoop_invariant[where P = "\<lambda>s. iterations s \<le> MAX_ITERATIONS \<and> length (executions s) \<le> iterations s", OF _ _ assms])
  show "iterations (initLoop src u) \<le> MAX_ITERATIONS \<and>
        length (executions (initLoop src u)) \<le> iterations (initLoop src u)"
    by (simp add: initLoop_def)
next
  fix s r s'
  assume "iterations s \<le> MAX_ITERATIONS \<and> length (executions s) \<le> iterations s"
    and "iterations s < MAX_ITERATIONS"
    and it: "iteration env problem language allTests s = (r, s')"
  with iteration_iterations[OF it] iteration_executions[OF it]
  show "iterations s' \<le> MAX_ITERATIONS \<and> length (executions s') \<le> iterations s'"
    by auto
qed

lemma fallBack_ghost:
  "executions (fallBack st) = executions st \<and> iterations (fallBack st) = iterations st"
  by (simp add: fallBack_def ui_simps)

lemma optimize_ghost:
  "executions (snd (optimize env problem st)) = executions st \<and>
   iterations (snd (optimize env problem st)) = iterations st"
  by (simp add: optimize_def Let_def ui_simps split: sum.splits)

lemma catchFailure_ghost:
  "executions (catchFailure (r, st)) = executions st \<and>
   iterations (catchFailure (r, st)) = iterations st"
  by (simp add: catchFailure_def ui_simps split: option.splits)

text \<open>
  Claim C1. Whatever the collaborators answer, and however the run ends (all tests
  passed, budget used up, or an error thrown and caught), the loop has started at most
  \<open>MAX_ITERATIONS = 5\<close> validation cycles, each of which sends the test cases to the
  execute endpoint once, and has recorded at most 5 result sets.
\<close>

theorem at_most_five_cycles:
  "iterations (catchFailure (testRepairOptimize env problem language allTests src u))
     \<le> MAX_ITERATIONS \<and>
   length (executions (catchFailure (testRepairOptimize env problem language allTests src u)))
     \<le> MAX_ITERATIONS \<and>
   MAX_ITERATIONS = 5"
proof -
  obtain r st where l: "repairLoop env problem language allTests (initLoop src u) = (r, st)"
    by (cases "repairLoop env problem language allTests (initLoop src u)")
  note b = repairLoop_bound[OF l]
  obtain r2 st2 where t: "testRepairOptimize env problem language allTests src u = (r2, st2)"
    by (cases "testRepairOptimize env problem language allTests src u")
  have "executions st2 = executions st \<and> iterations st2 = iterations st"
  proof (cases r)
    case None
    with l t have "st2 = snd (optimize env problem (fallBack st))"
      by (simp add: testRepairOptimize_def)
    then show ?thesis by (simp add: optimize_ghost fallBack_ghost)
  next
    case (Some e)
    with l t show ?thesis by (simp add: testRepairOptimize_def)
  qed
  with b t show ?thesis by (simp add: catchFailure_ghost MAX_ITERATIONS_def)
qed

theorem at_most_five_cycles_witness:
  "length (executions (catchFailure (testRepairOptimize (scriptedEnv [3, 1, 4, 4, 2] 0)
      (ascii ''sum'') (ascii ''python'') fiveTests (candidate 1) freshUi))) = 5"
proof -
  have "5 \<le> length (executions (catchFailure (testRepairOptimize (scriptedEnv [3, 1, 4, 4, 2] 0)
      (ascii ''sum'') (ascii ''python'') fiveTests (candidate 1) freshUi)))"
    by (simp add: eval_simps)
  with at_most_five_cycles[of "scriptedEnv [3, 1, 4, 4, 2] 0" "ascii ''sum''" "ascii ''python''"
      fiveTests "candidate 1" freshUi]
  show ?thesis by simp
qed

subsection \<open>The best candidate\<close>

lemma passedCount_nonneg: "0 \<le> passedCount rs"
  by (simp add: passedCount_def)

lemma earliestBest_new:
  assumes "list_all (\<lambda>e. passedCount (snd e) < passedCount rs) ex"
  shows "earliestBest (ex @ [(c, rs)]) (length ex)"
  using assms by (auto simp: earliestBest_def list_all_iff)

lemma earliestBest_keep:
  assumes "earliestBest ex i" "passedCount rs \<le> passedCount (snd (ex ! i))"
  shows "earliestBest (ex @ [(c, rs)]) i"
  using assms by (auto simp: earliestBest_def list_all_iff nth_append)

lemma trackBest_inv:
  assumes inv: "trackerInv st"
  shows "trackerInv (trackBest rs (st\<lparr>executions := executions st @ [(currentCode st, rs)]\<rparr>))"
proof (cases "passedCount rs > maxPassedCount st")
  case True
  have "list_all (\<lambda>e. passedCount (snd e) < passedCount rs) (executions st)"
    using inv True by (auto simp: trackerInv_def earliestBest_def list_all_iff)
  from earliestBest_new[OF this, of "currentCode st"] True show ?thesis
    by (auto simp: trackerInv_def trackBest_def)
next
  case False
  with inv passedCount_nonneg[of rs] obtain i where
    i: "earliestBest (executions st) i" "bestCode st = fst (executions st ! i)"
       "bestTestResults st = snd (executions st ! i)"
       "maxPassedCount st = passedCount (snd (executions st ! i))"
    by (auto simp: trackerInv_def)
  from i(1) have lt: "i < length (executions st)" by (simp add: earliestBest_def)
  from False i(4) have "passedCount rs \<le> passedCount (snd (executions st ! i))" by simp
  from earliestBest_keep[OF i(1) this, of "currentCode st"] i lt False show ?thesis
    by (auto simp: trackerInv_def trackBest_def nth_append)
qed

lemma trackerInv_cong:
  "trackerInv st \<Longrightarrow> executions st' = executions st \<Longrightarrow> bestCode st' = bestCode st \<Longrightarrow>
   bestTestResults st' = bestTestResults st \<Longrightarrow> maxPassedCount st' = maxPassedCount st \<Longrightarrow>
   trackerInv st'"
  by (simp add: trackerInv_def)

lemma iteration_inv:
  assumes inv: "trackerInv st" and it: "iteration env problem language allTests st = (r, st')"
  shows "trackerInv st'"
proof (cases "fetchExecute env (Suc (iterations st)) (currentCode st) language allTests")
  case (Inl e)
  with it have "st' = st\<lparr>iterations := iterations st + 1\<rparr>"
    by (simp add: iteration_def Let_def)
  with inv show ?thesis by (simp add: trackerInv_def)
next
  case (Inr rs)
  let ?t = "trackBest rs (st\<lparr>executions := executions st @ [(currentCode st, rs)]\<rparr>)"
  have t: "trackerInv ?t" by (rule trackBest_inv[OF inv])
  from it Inr have
    "executions st' = executions ?t \<and> bestCode st' = bestCode ?t \<and>
     bestTestResults st' = bestTestResults ?t \<and> maxPassedCount st' = maxPassedCount ?t"
    by (auto simp: iteration_def Let_def ui_simps trackBest_def split: sum.splits if_splits)
  with t show ?thesis by (intro trackerInv_cong[of ?t st']) simp_all
qed

lemma repairLoop_inv:
  assumes "repairLoop env problem language allTests (initLoop src u) = (r, st)"
  shows "trackerInv st"
proof (rule repairLoop_invariant[where P = trackerInv, OF _ _ assms])
  show "trackerInv (initLoop src u)" by (simp add: trackerInv_def initLoop_def)
next
  fix s r s'
  assume "trackerInv s" and "iteration env problem language allTests s = (r, s')"
  then show "trackerInv s'" by (rule iteration_inv)
qed

lemma repairLoop_normal_end:
  "repairLoop env problem language allTests st = (None, st') \<Longrightarrow>
   length (executions st) = iterations st \<Longrightarrow>
     (allPassed st' \<or> MAX_ITERATIONS \<le> iterations st') \<and> length (executions st') = iterations st'"
proof (induction env problem language allTests st rule: repairLoop.induct)
  case (1 env problem language allTests st)
  show ?case
  proof (cases "\<not> allPassed st \<and> iterations st < MAX_ITERATIONS")
    case False
    with "1.prems" show ?thesis by (auto simp: repairLoop.simps)
  next
    case True
    obtain r1 st1 where it: "iteration env problem language allTests st = (r1, st1)"
      by (cases "iteration env problem language allTests st")
    show ?thesis
    proof (cases r1)
      case (Some e)
      with True it "1.prems"(1) show ?thesis by (simp add: repairLoop.simps)
    next
      case None
      with True it "1.prems"(1) have l: "repairLoop env problem language allTests st1 = (None, st')"
        by (simp add: repairLoop.simps)
      from iteration_iterations[OF it] iteration_executions[OF it] None "1.prems"(2)
      have "length (executions st1) = iterations st1" by simp
      from "1.IH"[OF True it[symmetric] _ l this] None show ?thesis by simp
    qed
  qed
qed

text \<open>
  Claim C2. The stored maximum starts at \<open>-1\<close>. \<open>trackBest\<close> changes the state only for
  a pass count strictly above the stored maximum, and never lowers the stored maximum.
  When the loop ends with no error thrown and not all tests passed, five cycles have
  run, and the candidate made current and shown, with the test results shown, are those
  of the earliest cycle that has the greatest pass count. With the pass counts 3, 1, 4,
  4, 2 that is the third candidate.
\<close>

theorem best_candidate_is_earliest_maximum:
  "maxPassedCount (initLoop src u) = - 1 \<and>
   (trackBest results st0 \<noteq> st0 \<longrightarrow> maxPassedCount st0 < passedCount results) \<and>
   maxPassedCount st0 \<le> maxPassedCount (trackBest results st0) \<and>
   (repairLoop env problem language allTests (initLoop src u) = (None, st) \<and> \<not> allPassed st \<longrightarrow>
      length (executions st) = MAX_ITERATIONS \<and>
      (\<exists>i. earliestBest (executions st) i \<and>
           maxPassedCount st = passedCount (snd (executions st ! i)) \<and>
           currentCode (fallBack st) = fst (executions st ! i) \<and>
           uiCode (ui (fallBack st)) = fst (executions st ! i) \<and>
           uiTestResults (ui (fallBack st)) = snd (executions st ! i)))"
proof (intro conjI impI)
  show "maxPassedCount (initLoop src u) = - 1" by (simp add: initLoop_def)
  show "maxPassedCount st0 \<le> maxPassedCount (trackBest results st0)"
    by (simp add: trackBest_def)
  assume "trackBest results st0 \<noteq> st0"
  then show "maxPassedCount st0 < passedCount results"
    by (simp add: trackBest_def split: if_splits)
next
  assume a: "repairLoop env problem language allTests (initLoop src u) = (None, st) \<and> \<not> allPassed st"
  then have l: "repairLoop env problem language allTests (initLoop src u) = (None, st)"
    and np: "\<not> allPassed st" by simp_all
  have e: "MAX_ITERATIONS \<le> iterations st" "length (executions st) = iterations st"
    using repairLoop_normal_end[OF l] np by (simp_all add: initLoop_def)
  have "iterations st \<le> MAX_ITERATIONS"
    using repairLoop_bound[OF l] by simp
  with e show len: "length (executions st) = MAX_ITERATIONS" by simp
  have "trackerInv st" by (rule repairLoop_inv[OF l])
  moreover from len have "executions st \<noteq> []" by (auto simp: MAX_ITERATIONS_def)
  ultimately obtain i where
    "earliestBest (executions st) i" "bestCode st = fst (executions st ! i)"
    "bestTestResults st = snd (executions st ! i)"
    "maxPassedCount st = passedCount (snd (executions st ! i))"
    by (auto simp: trackerInv_def)
  with np show "\<exists>i. earliestBest (executions st) i \<and>
           maxPassedCount st = passedCount (snd (executions st ! i)) \<and>
           currentCode (fallBack st) = fst (executions st ! i) \<and>
           uiCode (ui (fallBack st)) = fst (executions st ! i) \<and>
           uiTestResults (ui (fallBack st)) = snd (executions st ! i)"
    by (auto simp: fallBack_def ui_simps)
qed

theorem best_candidate_is_earliest_maximum_witness:
  "\<not> allPassed (snd scoredRun) \<and>
   map (\<lambda>e. passedCount (snd e)) (executions (snd scoredRun)) = [3, 1, 4, 4, 2] \<and>
   uiCode (ui (fallBack (snd scoredRun))) = candidate 3 \<and>
   length (executions (snd scoredRun)) = MAX_ITERATIONS \<and>
   (\<exists>i. earliestBest (executions (snd scoredRun)) i \<and>
        uiCode (ui (fallBack (snd scoredRun))) = fst (executions (snd scoredRun) ! i) \<and>
        uiTestResults (ui (fallBack (snd scoredRun))) = snd (executions (snd scoredRun) ! i))"
proof -
  have h: "repairLoop (scriptedEnv [3, 1, 4, 4, 2] 0) (ascii ''sum'') (ascii ''python'') fiveTests
             (initLoop (candidate 1) freshUi) = (None, snd scoredRun) \<and> \<not> allPassed (snd scoredRun)"
    using scoredRun_normal by (simp add: scoredRun_def prod_eq_iff)
  from best_candidate_is_earliest_maximum[THEN conjunct2, THEN conjunct2, THEN conjunct2, THEN mp, OF h]
  show ?thesis
    using scoredRun_normal scoredRun_scores scoredRun_reported by blast
qed

subsection \<open>A blank repair\<close>

lemma cycles_repairLoop:
  "cycles env problem language allTests n st = Some st' \<Longrightarrow>
     repairLoop env problem language allTests st = repairLoop env problem language allTests st'"
proof (induction n arbitrary: st)
  case 0
  then show ?case by simp
next
  case (Suc n)
  from Suc.prems obtain st1 where
    c: "\<not> allPassed st \<and> iterations st < MAX_ITERATIONS" and
    it: "iteration env problem language allTests st = (None, st1)" and
    r: "cycles env problem language allTests n st1 = Some st'"
    by (auto split: if_splits prod.splits option.splits)
  from c it have "repairLoop env problem language allTests st = repairLoop env problem language allTests st1"
    by (subst repairLoop.simps) simp
  with Suc.IH[OF r] show ?case by simp
qed

lemma cycles_count:
  "cycles env problem language allTests n st = Some st' \<Longrightarrow>
     iterations st' = iterations st + n \<and>
     length (executions st') = length (executions st) + n"
proof (induction n arbitrary: st)
  case 0
  then show ?case by simp
next
  case (Suc n)
  from Suc.prems obtain st1 where
    it: "iteration env problem language allTests st = (None, st1)" and
    r: "cycles env problem language allTests n st1 = Some st'"
    by (auto split: if_splits prod.splits option.splits)
  from Suc.IH[OF r] iteration_iterations[OF it] iteration_executions[OF it] show ?case by simp
qed

text \<open>
  Claim C3. Let \<open>n\<close> cycles have gone by without an error, with the run still going;
  let cycle \<open>n + 1\<close> find a failed test while budget remains (\<open>n + 1 < 5\<close>), and let the
  repair return a candidate that is empty after trimming. Then the run throws
  \<open>Self-repair generated empty code. Aborting.\<close> and ends in the step \<open>failed\<close>; the
  executions are those of the \<open>n + 1\<close> cycles and no more, whatever budget was left.
\<close>

theorem blank_repair_aborts_run:
  assumes c: "cycles env problem language allTests n (initLoop src u) = Some st"
    and np: "\<not> allPassed st"
    and f: "fetchExecute env (Suc n) (currentCode st) language allTests = Inr results"
    and fl: "filter (\<lambda>r. \<not> passed r) results \<noteq> []"
    and b: "Suc n < MAX_ITERATIONS"
    and d: "debugAndRepair env (Suc n) problem (currentCode st)
              (filter (\<lambda>r. \<not> passed r) results) = Inr data"
    and t: "trim data = []"
  shows "\<exists>st'. testRepairOptimize env problem language allTests src u
                 = (Some (ascii ''Self-repair generated empty code. Aborting.''), st') \<and>
               executions st' = executions st @ [(currentCode st, results)] \<and>
               length (executions st') = Suc n \<and>
               iterations st' = Suc n \<and>
               uiStep (ui (catchFailure (testRepairOptimize env problem language allTests src u)))
                 = Failed"
proof -
  from cycles_count[OF c] have n: "iterations st = n" "length (executions st) = n"
    by (simp_all add: initLoop_def)
  let ?st4 = "setStep Debugging (trackBest results (setTestResults results
                (st\<lparr>iterations := Suc n, executions := executions st @ [(currentCode st, results)]\<rparr>)))"
  have cur: "currentCode ?st4 = currentCode st" "iterations ?st4 = Suc n"
    "executions ?st4 = executions st @ [(currentCode st, results)]"
    by (simp_all add: ui_simps trackBest_def)
  have it: "iteration env problem language allTests st
              = (Some (ascii ''Self-repair generated empty code. Aborting.''), ?st4)"
    using f fl b d t n
    by (simp add: iteration_def Let_def ui_simps trackBest_def)
  from np b n have "repairLoop env problem language allTests st
              = (Some (ascii ''Self-repair generated empty code. Aborting.''), ?st4)"
    by (subst repairLoop.simps) (simp add: it)
  with cycles_repairLoop[OF c]
  have "testRepairOptimize env problem language allTests src u
          = (Some (ascii ''Self-repair generated empty code. Aborting.''), ?st4)"
    by (simp add: testRepairOptimize_def)
  with cur n show ?thesis
    by (simp add: catchFailure_def ui_simps)
qed

theorem blank_repair_aborts_run_witness:
  "fst blankRun = Some (ascii ''Self-repair generated empty code. Aborting.'') \<and>
   length (executions (snd blankRun)) = 2 \<and>
   uiStep (ui (catchFailure blankRun)) = Failed"
proof -
  let ?env = "scriptedEnv [3, 1, 4, 4, 2] 2"
  let ?st = "the (cycles ?env (ascii ''sum'') (ascii ''python'') fiveTests (Suc 0)
                (initLoop (candidate 1) freshUi))"
  have c: "cycles ?env (ascii ''sum'') (ascii ''python'') fiveTests (Suc 0)
             (initLoop (candidate 1) freshUi) = Some ?st"
    by (simp add: eval_simps)
  have np: "\<not> allPassed ?st" by (simp add: eval_simps)
  have f: "fetchExecute ?env (Suc (Suc 0)) (currentCode ?st) (ascii ''python'') fiveTests
             = Inr (mark 1 fiveTests)"
    by (simp add: scriptedEnv_def)
  have fl: "filter (\<lambda>r. \<not> passed r) (mark 1 fiveTests) \<noteq> []"
    by (simp add: fiveTests_def mockResult_def pythonResult_def)
  have b: "Suc (Suc 0) < MAX_ITERATIONS" by (simp add: MAX_ITERATIONS_def)
  have d: "debugAndRepair ?env (Suc (Suc 0)) (ascii ''sum'') (currentCode ?st)
             (filter (\<lambda>r. \<not> passed r) (mark 1 fiveTests)) = Inr (ascii ''  '')"
    by (simp add: scriptedEnv_def)
  have t: "trim (ascii ''  '') = []" by (simp add: trim_def isWhiteSpace_def ascii_def)
  from blank_repair_aborts_run[OF c np f fl b d t] show ?thesis
    by (auto simp: blankRun_def)
qed

subsection \<open>A failing optimizer\<close>

lemma iteration_shown:
  assumes "shownInv s" "\<not> allPassed s" "iteration env problem language allTests s = (r, s')"
  shows "shownInv s'"
  using assms
  by (auto simp: shownInv_def iteration_def Let_def ui_simps trackBest_def list_all_iff
      filter_empty_conv split: sum.splits if_splits)

lemma repairLoop_shown:
  assumes "repairLoop env problem language allTests (initLoop src u) = (r, st)" "uiCode u = src"
  shows "shownInv st"
proof (rule repairLoop_invariant[where P = shownInv, OF _ _ assms(1)])
  show "shownInv (initLoop src u)" using assms(2) by (simp add: shownInv_def initLoop_def)
next
  fix s r s'
  assume "shownInv s" "\<not> allPassed s" "iteration env problem language allTests s = (r, s')"
  then show "shownInv s'" by (rule iteration_shown)
qed

text \<open>
  Claim C10, as stated, fails: the call of the optimizer is inside the same \<open>try\<close> as the
  rest of the run, so when it throws the run ends in the step \<open>failed\<close>, not \<open>completed\<close>.
  Here all five tests pass in the first cycle and the optimizer throws.
\<close>

theorem optimizer_failure_fatal_counterexample:
  "uiStep (runAgent (scriptedEnv [5] 0) (ascii ''sum'') [] [] (ascii ''python'') idleUi) = Failed \<and>
   uiStep (runAgent (scriptedEnv [5] 0) (ascii ''sum'') [] [] (ascii ''python'') idleUi) \<noteq> Completed"
  by (simp add: runAgent_def inputPublicTests_def eval_simps)

text \<open>
  Claim C10, amended. When the loop has ended with no error thrown and the optimizer
  throws, the run ends in the step \<open>failed\<close>, and what is shown stays the terminal
  candidate with its test results: after all tests passed, the candidate of the last
  cycle with its results, all of them passed; otherwise the best candidate with its
  results.
\<close>

theorem optimizer_failure_keeps_candidate:
  assumes l: "repairLoop env problem language allTests (initLoop src u) = (None, st)"
    and u: "uiCode u = src"
    and o: "optimizeCode env problem (currentCode (fallBack st)) = Inl e"
  shows "uiStep (ui (catchFailure (testRepairOptimize env problem language allTests src u))) = Failed \<and>
         uiCode (ui (catchFailure (testRepairOptimize env problem language allTests src u)))
           = currentCode (fallBack st) \<and>
         uiTestResults (ui (catchFailure (testRepairOptimize env problem language allTests src u)))
           = uiTestResults (ui (fallBack st)) \<and>
         (if allPassed st
          then last (executions st) = (currentCode (fallBack st), uiTestResults (ui (fallBack st))) \<and>
               list_all passed (uiTestResults (ui (fallBack st)))
          else currentCode (fallBack st) = bestCode st \<and>
               uiTestResults (ui (fallBack st)) = bestTestResults st)"
proof -
  have t: "testRepairOptimize env problem language allTests src u
             = (Some e, setStep Optimizing (fallBack st))"
    using l o by (simp add: testRepairOptimize_def optimize_def Let_def ui_simps)
  from repairLoop_shown[OF l u] have s: "shownInv st" .
  have fb: "uiCode (ui (fallBack st)) = currentCode (fallBack st)"
    using s by (simp add: fallBack_def shownInv_def ui_simps)
  show ?thesis
    using s fb by (auto simp: t catchFailure_def ui_simps fallBack_def shownInv_def)
qed

theorem optimizer_failure_keeps_candidate_witness:
  "allPassed (snd idealRun) \<and>
   uiStep (ui (catchFailure (testRepairOptimize (scriptedEnv [5] 0) (ascii ''sum'')
      (ascii ''python'') fiveTests (candidate 1) freshUi))) = Failed \<and>
   uiCode (ui (catchFailure (testRepairOptimize (scriptedEnv [5] 0) (ascii ''sum'')
      (ascii ''python'') fiveTests (candidate 1) freshUi))) = candidate 1"
proof -
  have n: "fst idealRun = None \<and> allPassed (snd idealRun) \<and> currentCode (fallBack (snd idealRun)) = candidate 1"
    by (simp add: idealRun_def eval_simps)
  then have l: "repairLoop (scriptedEnv [5] 0) (ascii ''sum'') (ascii ''python'') fiveTests
             (initLoop (candidate 1) freshUi) = (None, snd idealRun)"
    by (simp add: idealRun_def prod_eq_iff)
  have u: "uiCode freshUi = candidate 1" by (simp add: freshUi_def)
  have o: "optimizeCode (scriptedEnv [5] 0) (ascii ''sum'') (currentCode (fallBack (snd idealRun)))
             = Inl (ascii ''optimizer unavailable'')"
    by (simp add: scriptedEnv_def)
  from optimizer_failure_keeps_candidate[OF l u o] n show ?thesis by simp
qed

end
